theory Spec2Isabelle
  imports Complex_Main
begin

section \<open>Values of the host language\<close>

text \<open>
  The validators of \<^verbatim>\<open>packages/schema/mod.ts\<close> take an input of type \<^verbatim>\<open>unknown\<close>.
  The embedding represents such an input by value: primitives, functions (opaque, named),
  arrays (a list of elements; a hole reads as \<^verbatim>\<open>undefined\<close>), objects with data
  properties (the prototype and the own properties in creation order), objects with
  accessor properties (reading a property runs its getter, which returns a value or throws)
  and proxies (the \<^verbatim>\<open>getPrototypeOf\<close> trap and the \<^verbatim>\<open>get\<close> trap return or throw).
  Two values with the same content are the same value: object identity is not part of the
  model. Not represented: symbol-keyed properties, arrays with accessor elements, and
  proxies that are revoked or whose target is an array or a function.
\<close>

text \<open>
  A path segment is an array index or a property name; an issue has a message and may have
  a path. A call that does not return throws: a \<^verbatim>\<open>TypeError\<close> of the language, the
  \<^verbatim>\<open>SchemaError\<close> of the module, or the error of a getter or a trap of the input.
\<close>

datatype key = KIndex nat | KName string

record issue =
  message :: string
  path :: "key list option"

datatype thrown = TypeError | SchemaError (issues: "issue list") | Error string

text \<open>
  A number is an IEEE double: a finite double is represented by its exact rational value
  (the two zeros coincide, as they do under \<^verbatim>\<open>===\<close>), the three others are constructors.
\<close>

datatype num = Finite rat | NaN | PosInfinity | NegInfinity

datatype proto =
    NullProto
  | ObjectProto
  | ArrayProto
  | FunctionProto
  | StringProto
  | NumberProto
  | BooleanProto
  | BigIntProto
  | SymbolProto
  | ClassProto string

text \<open>
  \<open>Accessors p props\<close> is an ordinary object with prototype \<open>p\<close> in which a property is
  listed with what reading it gives: \<open>Inr v\<close> for a data property or a getter that returns
  \<open>v\<close>, \<open>Inl e\<close> for a getter that throws \<open>e\<close>. \<open>Proxy gp props\<close> is a proxy: \<open>gp\<close> is what
  its \<^verbatim>\<open>getPrototypeOf\<close> trap does, \<open>props\<close> what its \<^verbatim>\<open>get\<close> trap does on the listed keys
  (it answers \<^verbatim>\<open>undefined\<close> on the others).
\<close>

datatype val =
    Undefined
  | Null
  | Bool bool
  | Num num
  | Str string
  | BigInt int
  | Symbol string
  | Func string
  | Arr "val list"
  | Obj proto "(string \<times> val) list"
  | Accessors proto "(string \<times> (thrown + val)) list"
  | Proxy "thrown + proto" "(string \<times> (thrown + val)) list"

text \<open>A result holds a value or issues.\<close>

datatype result = Value val | Issues "issue list"

text \<open>\<^verbatim>\<open>typeof\<close>, \<^verbatim>\<open>Number.isFinite\<close>, \<^verbatim>\<open>Array.isArray\<close>.\<close>

fun typeof :: "val \<Rightarrow> string" where
  "typeof Undefined = ''undefined''"
| "typeof Null = ''object''"
| "typeof (Bool b) = ''boolean''"
| "typeof (Num n) = ''number''"
| "typeof (Str s) = ''string''"
| "typeof (BigInt n) = ''bigint''"
| "typeof (Symbol s) = ''symbol''"
| "typeof (Func f) = ''function''"
| "typeof (Arr xs) = ''object''"
| "typeof (Obj p props) = ''object''"
| "typeof (Accessors p props) = ''object''"
| "typeof (Proxy gp props) = ''object''"

fun isFinite :: "val \<Rightarrow> bool" where
  "isFinite (Num (Finite q)) = True"
| "isFinite v = False"

fun isArray :: "val \<Rightarrow> bool" where
  "isArray (Arr xs) = True"
| "isArray v = False"

text \<open>The elements of an array value (\<open>input.length\<close> is their number).\<close>

fun elements :: "val \<Rightarrow> val list" where
  "elements (Arr xs) = xs"
| "elements v = []"

text \<open>
  \<^verbatim>\<open>Object.getPrototypeOf\<close> throws a TypeError on \<^verbatim>\<open>null\<close> and \<^verbatim>\<open>undefined\<close>, answers
  with the wrapper prototype for a primitive, and runs the trap of a proxy.
\<close>

fun getPrototypeOf :: "val \<Rightarrow> thrown + proto" where
  "getPrototypeOf Undefined = Inl TypeError"
| "getPrototypeOf Null = Inl TypeError"
| "getPrototypeOf (Bool b) = Inr BooleanProto"
| "getPrototypeOf (Num n) = Inr NumberProto"
| "getPrototypeOf (Str s) = Inr StringProto"
| "getPrototypeOf (BigInt n) = Inr BigIntProto"
| "getPrototypeOf (Symbol s) = Inr SymbolProto"
| "getPrototypeOf (Func f) = Inr FunctionProto"
| "getPrototypeOf (Arr xs) = Inr ArrayProto"
| "getPrototypeOf (Obj p props) = Inr p"
| "getPrototypeOf (Accessors p props) = Inr p"
| "getPrototypeOf (Proxy gp props) = gp"

text \<open>
  The members an object inherits from \<^verbatim>\<open>Object.prototype\<close>: reading one of these names
  from an object that has no own property of that name finds the inherited member, not
  \<^verbatim>\<open>undefined\<close>, and \<^verbatim>\<open>__proto__\<close> reads the prototype. An object with no prototype
  inherits nothing. What the other prototypes hand down is not represented.
\<close>

definition object_prototype_methods :: "string list" where
  "object_prototype_methods =
     [''constructor'', ''__defineGetter__'', ''__defineSetter__'', ''hasOwnProperty'',
      ''__lookupGetter__'', ''__lookupSetter__'', ''isPrototypeOf'',
      ''propertyIsEnumerable'', ''toString'', ''valueOf'', ''toLocaleString'']"

definition object_prototype :: val where
  "object_prototype = Obj NullProto (map (\<lambda>n. (n, Func n)) object_prototype_methods)"

fun inherited :: "proto \<Rightarrow> string \<Rightarrow> val" where
  "inherited ObjectProto key =
     (if key = ''__proto__'' then object_prototype
      else if key \<in> set object_prototype_methods then Func key
      else Undefined)"
| "inherited p key = Undefined"

text \<open>
  \<^verbatim>\<open>input[key]\<close>. It throws on \<^verbatim>\<open>null\<close> and \<^verbatim>\<open>undefined\<close>. On an object it is the own
  property, else the inherited one; reading an accessor property runs its getter and
  reading from a proxy runs its \<^verbatim>\<open>get\<close> trap, and either may throw. The validators read
  properties only from values that passed \<^verbatim>\<open>isObject\<close>, which are objects and proxies
  whose prototype is absent or \<^verbatim>\<open>Object.prototype\<close>; the properties of the other values
  (array elements, string characters, members of the other prototypes) are not
  represented, and the last equation stands for a read that does not throw.
\<close>

definition lookup_prop :: "proto \<Rightarrow> (string \<times> val) list \<Rightarrow> string \<Rightarrow> val" where
  "lookup_prop p props key =
     (case map_of props key of Some v \<Rightarrow> v | None \<Rightarrow> inherited p key)"

fun get_prop :: "val \<Rightarrow> string \<Rightarrow> thrown + val" where
  "get_prop Undefined key = Inl TypeError"
| "get_prop Null key = Inl TypeError"
| "get_prop (Obj p props) key = Inr (lookup_prop p props key)"
| "get_prop (Accessors p props) key =
     (case map_of props key of Some r \<Rightarrow> r | None \<Rightarrow> Inr (inherited p key))"
| "get_prop (Proxy gp props) key =
     (case map_of props key of Some r \<Rightarrow> r | None \<Rightarrow> Inr Undefined)"
| "get_prop v key = Inr Undefined"

text \<open>
  \<^verbatim>\<open>value[key] = v\<close> on the own properties of an object without setters: an existing
  property keeps its place, a new one is created last.
\<close>

fun set_prop :: "(string \<times> val) list \<Rightarrow> string \<Rightarrow> val \<Rightarrow> (string \<times> val) list" where
  "set_prop [] key v = [(key, v)]"
| "set_prop (p # ps) key v = (if fst p = key then (key, v) # ps else p # set_prop ps key v)"

text \<open>
  Array reads and writes by index: a read past the end is \<^verbatim>\<open>undefined\<close>, a write past
  the end extends the array.
\<close>

definition array_get :: "val list \<Rightarrow> nat \<Rightarrow> val" where
  "array_get xs i = (if i < length xs then xs ! i else Undefined)"

definition array_set :: "val list \<Rightarrow> nat \<Rightarrow> val \<Rightarrow> val list" where
  "array_set xs i v =
     (if i < length xs then xs[i := v]
      else xs @ replicate (i - length xs) Undefined @ [v])"

subsection \<open>Property enumeration order\<close>

text \<open>
  \<^verbatim>\<open>for (const key in shape)\<close> visits the enumerable string-keyed properties of
  \<^verbatim>\<open>shape\<close>: first the keys that are array indices (canonical decimal numerals below
  \<open>2^32 - 1\<close>) in ascending numeric order, then the other keys in creation order. A shape
  is represented by its own properties in creation order, as an object literal lists them
  (a numeric literal key is the string of its numeral); an object holds each key once.
\<close>

definition is_digit :: "char \<Rightarrow> bool" where
  "is_digit c = (c \<in> set ''0123456789'')"

definition digit_val :: "char \<Rightarrow> int" where
  "digit_val c = of_char c - 48"

definition dec_val :: "string \<Rightarrow> int" where
  "dec_val s = foldl (\<lambda>n c. 10 * n + digit_val c) 0 s"

definition is_array_index :: "string \<Rightarrow> bool" where
  "is_array_index s =
     (s \<noteq> [] \<and> list_all is_digit s \<and> (s = ''0'' \<or> hd s \<noteq> CHR ''0'')
      \<and> dec_val s < 2 ^ 32 - 1)"

definition for_in :: "(string \<times> 'a) list \<Rightarrow> (string \<times> 'a) list" where
  "for_in props =
     sort_key (\<lambda>p. dec_val (fst p)) (filter (\<lambda>p. is_array_index (fst p)) props)
     @ filter (\<lambda>p. \<not> is_array_index (fst p)) props"

section \<open>The schema module\<close>

subsection \<open>isObject\<close>

definition isObject :: "val \<Rightarrow> thrown + bool" where
  "isObject input =
     (if input = Null \<or> input = Undefined then Inr False
      else (case getPrototypeOf input of
              Inl e \<Rightarrow> Inl e
            | Inr proto \<Rightarrow> Inr (proto = NullProto \<or> proto = ObjectProto)))"

subsection \<open>Schema, SchemaError, createSchema\<close>

text \<open>
  A schema is the object \<^verbatim>\<open>createSchema\<close> returns: \<^verbatim>\<open>parse\<close>, \<^verbatim>\<open>safeParse\<close> and the
  \<^verbatim>\<open>"~standard"\<close> property; an object schema has \<^verbatim>\<open>shape\<close> as well (absent otherwise).
  A call returns \<open>Inr\<close> of its result or throws (\<open>Inl\<close>); \<^verbatim>\<open>parse\<close> throws
  \<^verbatim>\<open>new SchemaError(result.issues)\<close>.
\<close>

record standard_props =
  validate :: "val \<Rightarrow> thrown + result"
  vendor :: string
  version :: int

datatype schema =
  Schema
    (parse: "val \<Rightarrow> thrown + val")
    (safeParse: "val \<Rightarrow> thrown + result")
    (standard: standard_props)
    (shape: "(string \<times> schema) list option")

definition createSchema :: "(val \<Rightarrow> thrown + result) \<Rightarrow> schema" where
  "createSchema safeParse' =
     Schema
       (\<lambda>input. case safeParse' input of
                   Inl e \<Rightarrow> Inl e
                 | Inr (Issues iss) \<Rightarrow> Inl (SchemaError iss)
                 | Inr (Value v) \<Rightarrow> Inr v)
       safeParse'
       \<lparr>validate = (\<lambda>v. safeParse' v), vendor = ''razr'', version = 1\<rparr>
       None"

subsection \<open>prependKeyToIssues\<close>

definition prependKeyToIssues :: "key \<Rightarrow> issue list \<Rightarrow> issue list" where
  "prependKeyToIssues k iss =
     map (\<lambda>issue. issue\<lparr>path := (case path issue of Some p \<Rightarrow> Some (k # p) | None \<Rightarrow> Some [k])\<rparr>)
       iss"

subsection \<open>Primitive schemas\<close>

text \<open>
  A parameter with a default (\<^verbatim>\<open>message = "Expected string"\<close>) is an optional argument:
  \<open>None\<close> is the call that leaves it out.
\<close>

definition default_arg :: "'a option \<Rightarrow> 'a \<Rightarrow> 'a" where
  "default_arg arg d = (case arg of None \<Rightarrow> d | Some a \<Rightarrow> a)"

definition string :: "string option \<Rightarrow> schema" where
  "string message_arg =
     (let msg = default_arg message_arg ''Expected string'' in
      createSchema (\<lambda>v.
        if ''string'' = typeof v then Inr (Value v)
        else Inr (Issues [\<lparr>message = msg, path = None\<rparr>])))"

definition number :: "string option \<Rightarrow> schema" where
  "number message_arg =
     (let msg = default_arg message_arg ''Expected number'' in
      createSchema (\<lambda>v.
        if ''number'' = typeof v \<and> isFinite v then Inr (Value v)
        else Inr (Issues [\<lparr>message = msg, path = None\<rparr>])))"

definition boolean :: "string option \<Rightarrow> schema" where
  "boolean message_arg =
     (let msg = default_arg message_arg ''Expected boolean'' in
      createSchema (\<lambda>v.
        if ''boolean'' = typeof v then Inr (Value v)
        else Inr (Issues [\<lparr>message = msg, path = None\<rparr>])))"

subsection \<open>array\<close>

text \<open>
  The loop of \<^verbatim>\<open>array\<close>: \<open>vals\<close> is the array made by \<^verbatim>\<open>new Array(len)\<close>, \<open>i\<close> the
  loop variable.
\<close>

function array_loop :: "schema \<Rightarrow> val list \<Rightarrow> nat \<Rightarrow> nat \<Rightarrow> val list \<Rightarrow> thrown + result" where
  "array_loop sch input len i vals =
     (if i < len then
        (case safeParse sch (array_get input i) of
           Inl e \<Rightarrow> Inl e
         | Inr (Issues iss) \<Rightarrow> Inr (Issues (prependKeyToIssues (KIndex i) iss))
         | Inr (Value v) \<Rightarrow> array_loop sch input len (i + 1) (array_set vals i v))
      else Inr (Value (Arr vals)))"
  by pat_completeness auto
termination
  by (relation "measure (\<lambda>(sch, input, len, i, vals). len - i)") auto

declare array_loop.simps [simp del]

definition array :: "schema \<Rightarrow> string option \<Rightarrow> schema" where
  "array sch message_arg =
     (let msg = default_arg message_arg ''Expected array'' in
      createSchema (\<lambda>input.
        if \<not> isArray input then Inr (Issues [\<lparr>message = msg, path = None\<rparr>])
        else
          (let len = length (elements input); vals = replicate len Undefined
           in array_loop sch (elements input) len 0 vals)))"

subsection \<open>object\<close>

text \<open>
  The loop of \<^verbatim>\<open>object\<close> over the keys \<^verbatim>\<open>for ... in\<close> yields, each with the schema
  \<^verbatim>\<open>shape[key]\<close>; \<open>props\<close> are the own properties of the object made by
  \<^verbatim>\<open>Object.create(null)\<close>. The returned schema is the created one with \<^verbatim>\<open>shape\<close> added.
\<close>

fun object_loop :: "(string \<times> schema) list \<Rightarrow> val \<Rightarrow> (string \<times> val) list \<Rightarrow> thrown + result" where
  "object_loop [] input props = Inr (Value (Obj NullProto props))"
| "object_loop ((key, sch) # rest) input props =
     (case get_prop input key of
        Inl e \<Rightarrow> Inl e
      | Inr x \<Rightarrow>
          (case safeParse sch x of
             Inl e \<Rightarrow> Inl e
           | Inr (Issues iss) \<Rightarrow> Inr (Issues (prependKeyToIssues (KName key) iss))
           | Inr (Value v) \<Rightarrow> object_loop rest input (set_prop props key v)))"

definition with_shape :: "(string \<times> schema) list \<Rightarrow> schema \<Rightarrow> schema" where
  "with_shape sh s = Schema (parse s) (safeParse s) (standard s) (Some sh)"

definition object :: "(string \<times> schema) list \<Rightarrow> string option \<Rightarrow> schema" where
  "object sh message_arg =
     (let msg = default_arg message_arg ''Expected object'' in
      with_shape sh (createSchema (\<lambda>input.
        case isObject input of
          Inl e \<Rightarrow> Inl e
        | Inr ok \<Rightarrow>
            if \<not> ok then Inr (Issues [\<lparr>message = msg, path = None\<rparr>])
            else object_loop (for_in sh) input [])))"

subsection \<open>maybe, defaulted\<close>

definition maybe :: "schema \<Rightarrow> schema" where
  "maybe sch =
     createSchema (\<lambda>v.
       if Null = v \<or> Undefined = v then Inr (Value Undefined)
       else safeParse sch v)"

definition defaulted :: "schema \<Rightarrow> val \<Rightarrow> schema" where
  "defaulted sch defaultValue =
     createSchema (\<lambda>v.
       if Null = v \<or> Undefined = v then Inr (Value defaultValue)
       else safeParse sch v)"

subsection \<open>literal\<close>

text \<open>
  Modelled from the spec: \<^verbatim>\<open>literal\<close>, which \<^verbatim>\<open>mod.test.ts\<close> imports from \<^verbatim>\<open>mod.ts\<close> and
  the \<^verbatim>\<open>mod.ts\<close> at hand does not define. The spec: "literal(value, message): succeeds iff
  input is strictly equal to value (supports text, numeric, boolean, and the null value as
  literal targets)", with "a single-issue failure list with no path". Strict equality with
  a primitive holds for the same primitive only, and never for \<^verbatim>\<open>NaN\<close>.
\<close>

datatype lit = LString string | LNumber num | LBoolean bool | LNull

fun strict_equals :: "val \<Rightarrow> lit \<Rightarrow> bool" where
  "strict_equals (Str s) (LString t) = (s = t)"
| "strict_equals (Num a) (LNumber b) = (a \<noteq> NaN \<and> b \<noteq> NaN \<and> a = b)"
| "strict_equals (Bool a) (LBoolean b) = (a = b)"
| "strict_equals Null LNull = True"
| "strict_equals v l = False"

definition literal :: "lit \<Rightarrow> string \<Rightarrow> schema" where
  "literal l msg =
     createSchema (\<lambda>input.
       if strict_equals input l then Inr (Value input)
       else Inr (Issues [\<lparr>message = msg, path = None\<rparr>]))"

subsection \<open>Schemas built from the construction API\<close>



subsection \<open>Nesting\<close>

text \<open>
  \<open>reaches outer vo ks inner vi\<close>: validating \<open>vo\<close> with \<open>outer\<close> comes to validate \<open>vi\<close>
  with \<open>inner\<close>, through the enclosing combinators whose segments, outermost first, are
  \<open>ks\<close>. Under an array the elements before the index validate, under an object the fields
  enumerated before the key validate (a failure there would end the validation first);
  \<^verbatim>\<open>maybe\<close> and \<^verbatim>\<open>defaulted\<close> pass a present input on and add no segment.
\<close>

inductive reaches :: "schema \<Rightarrow> val \<Rightarrow> key list \<Rightarrow> schema \<Rightarrow> val \<Rightarrow> bool" where
  here: "reaches s v [] s v"
| in_array:
    "\<lbrakk>i < length xs; \<forall>j<i. \<exists>w. safeParse s (xs ! j) = Inr (Value w);
      reaches s (xs ! i) ks inner vi\<rbrakk>
     \<Longrightarrow> reaches (array s m) (Arr xs) (KIndex i # ks) inner vi"
| in_object:
    "\<lbrakk>isObject input = Inr True; for_in sh = pre @ (k, s) # post;
      \<forall>(k', s') \<in> set pre. \<exists>x w. get_prop input k' = Inr x \<and> safeParse s' x = Inr (Value w);
      get_prop input k = Inr x; reaches s x ks inner vi\<rbrakk>
     \<Longrightarrow> reaches (object sh m) input (KName k # ks) inner vi"
| in_maybe:
    "\<lbrakk>v \<noteq> Null; v \<noteq> Undefined; reaches s v ks inner vi\<rbrakk>
     \<Longrightarrow> reaches (maybe s) v ks inner vi"
| in_defaulted:
    "\<lbrakk>v \<noteq> Null; v \<noteq> Undefined; reaches s v ks inner vi\<rbrakk>
     \<Longrightarrow> reaches (defaulted s d) v ks inner vi"

subsection \<open>Inputs whose reads return\<close>


section \<open>Properties\<close>

subsection \<open>What a created schema holds\<close>

lemma safeParse_createSchema: "safeParse (createSchema f) = f"
  by (simp add: createSchema_def)


lemma standard_createSchema:
  "standard (createSchema f) = \<lparr>validate = f, vendor = ''razr'', version = 1\<rparr>"
  by (simp add: createSchema_def)

lemma safeParse_with_shape: "safeParse (with_shape sh s) = safeParse s"
  by (simp add: with_shape_def)


lemma standard_with_shape: "standard (with_shape sh s) = standard s"
  by (simp add: with_shape_def)

lemma safeParse_string:
  "safeParse (string m) v =
     (if typeof v = ''string'' then Inr (Value v)
      else Inr (Issues [\<lparr>message = default_arg m ''Expected string'', path = None\<rparr>]))"
  by (simp add: string_def safeParse_createSchema)

lemma safeParse_number:
  "safeParse (number m) v =
     (if typeof v = ''number'' \<and> isFinite v then Inr (Value v)
      else Inr (Issues [\<lparr>message = default_arg m ''Expected number'', path = None\<rparr>]))"
  by (simp add: number_def safeParse_createSchema)

lemma safeParse_boolean:
  "safeParse (boolean m) v =
     (if typeof v = ''boolean'' then Inr (Value v)
      else Inr (Issues [\<lparr>message = default_arg m ''Expected boolean'', path = None\<rparr>]))"
  by (simp add: boolean_def safeParse_createSchema)

lemma safeParse_maybe:
  "safeParse (maybe s) v = (if v = Null \<or> v = Undefined then Inr (Value Undefined) else safeParse s v)"
  by (auto simp add: maybe_def safeParse_createSchema)

lemma safeParse_defaulted:
  "safeParse (defaulted s d) v = (if v = Null \<or> v = Undefined then Inr (Value d) else safeParse s v)"
  by (auto simp add: defaulted_def safeParse_createSchema)

lemma safeParse_literal:
  "safeParse (literal l m) v =
     (if strict_equals v l then Inr (Value v) else Inr (Issues [\<lparr>message = m, path = None\<rparr>]))"
  by (simp add: literal_def safeParse_createSchema)

subsection \<open>Paths and the array loop\<close>


lemma prependKeyToIssues_path:
  "x \<in> set (prependKeyToIssues k iss) \<Longrightarrow> \<exists>p. path x = Some (k # p)"
  by (auto simp add: prependKeyToIssues_def split: option.splits)

lemma prependKeyToIssues_map:
  "prependKeyToIssues k iss =
     map (\<lambda>i. \<lparr>message = message i,
               path = Some (k # (case path i of None \<Rightarrow> [] | Some p \<Rightarrow> p))\<rparr>) iss"
  by (auto simp add: prependKeyToIssues_def split: option.splits)

lemma array_get_in: "i < length xs \<Longrightarrow> array_get xs i = xs ! i"
  by (simp add: array_get_def)

lemma array_set_in: "i < length xs \<Longrightarrow> array_set xs i v = xs[i := v]"
  by (simp add: array_set_def)

lemma array_loop_fail:
  assumes "len = length input" "length vals = len" "k < len"
    and "safeParse s (input ! k) = Inr (Issues iss)"
  shows "i \<le> k \<Longrightarrow> (\<forall>j. i \<le> j \<and> j < k \<longrightarrow> (\<exists>w. safeParse s (input ! j) = Inr (Value w))) \<Longrightarrow>
         length vals' = len \<Longrightarrow>
         array_loop s input len i vals' = Inr (Issues (prependKeyToIssues (KIndex k) iss))"
proof (induction "k - i" arbitrary: i vals')
  case 0
  then have "i = k" by simp
  then show ?case
    using assms by (subst array_loop.simps) (simp add: array_get_in)
next
  case (Suc n)
  then have lt: "i < k" by simp
  then obtain w where w: "safeParse s (input ! i) = Inr (Value w)"
    using Suc.prems(2) by auto
  have "array_loop s input len (i + 1) (array_set vals' i w)
        = Inr (Issues (prependKeyToIssues (KIndex k) iss))"
  proof (rule Suc.hyps(1))
    show "n = k - (i + 1)" using Suc.hyps(2) by simp
    show "i + 1 \<le> k" using lt by simp
    show "\<forall>j. i + 1 \<le> j \<and> j < k \<longrightarrow> (\<exists>w. safeParse s (input ! j) = Inr (Value w))"
      using Suc.prems(2) by auto
    show "length (array_set vals' i w) = len"
      using Suc.prems(3) lt assms(3) by (simp add: array_set_in)
  qed
  then show ?case
    using lt assms(1,3) w by (subst array_loop.simps) (simp add: array_get_in)
qed

lemma array_loop_success:
  assumes "len = length input"
    and "\<forall>j<len. safeParse s (input ! j) = Inr (Value (ws ! j))"
    and "length ws = len"
  shows "i \<le> len \<Longrightarrow> length vals = len \<Longrightarrow> take i vals = take i ws \<Longrightarrow>
         array_loop s input len i vals = Inr (Value (Arr ws))"
proof (induction "len - i" arbitrary: i vals)
  case 0
  then have "i = len" by simp
  then have "vals = ws" using 0 assms(3) by simp
  then show ?case using \<open>i = len\<close> by (subst array_loop.simps) simp
next
  case (Suc n)
  then have lt: "i < len" by simp
  have w: "safeParse s (input ! i) = Inr (Value (ws ! i))" using assms(2) lt by simp
  have "array_loop s input len (i + 1) (array_set vals i (ws ! i)) = Inr (Value (Arr ws))"
  proof (rule Suc.hyps(1))
    show "n = len - (i + 1)" using Suc.hyps(2) by simp
    show "i + 1 \<le> len" using lt by simp
    show "length (array_set vals i (ws ! i)) = len"
      using Suc.prems(2) lt by (simp add: array_set_in)
    show "take (i + 1) (array_set vals i (ws ! i)) = take (i + 1) ws"
      using Suc.prems(2,3) lt assms(3)
      by (simp add: array_set_in take_Suc_conv_app_nth)
  qed
  then show ?case
    using lt assms(1) w by (subst array_loop.simps) (simp add: array_get_in)
qed

lemma safeParse_array:
  "safeParse (array s m) input =
     (if \<not> isArray input
      then Inr (Issues [\<lparr>message = default_arg m ''Expected array'', path = None\<rparr>])
      else array_loop s (elements input) (length (elements input)) 0
             (replicate (length (elements input)) Undefined))"
  by (simp add: array_def safeParse_createSchema Let_def)

subsection \<open>Plain objects, enumeration order and the object loop\<close>

lemma isObject_Obj: "isObject (Obj p props) = Inr (p = NullProto \<or> p = ObjectProto)"
  by (simp add: isObject_def)

lemma isObject_False:
  "(isObject input = Inr False) =
     (input = Null \<or> input = Undefined
      \<or> (\<exists>p. getPrototypeOf input = Inr p \<and> p \<noteq> NullProto \<and> p \<noteq> ObjectProto))"
  by (cases input) (auto simp add: isObject_def split: sum.splits)

lemma isObject_cases:
  "isObject input = Inr True \<or> isObject input = Inr False \<or> (\<exists>e. isObject input = Inl e)"
  by (cases "isObject input") auto

lemma safeParse_object:
  "safeParse (object sh m) input =
     (case isObject input of
        Inl e \<Rightarrow> Inl e
      | Inr ok \<Rightarrow>
          if \<not> ok then Inr (Issues [\<lparr>message = default_arg m ''Expected object'', path = None\<rparr>])
          else object_loop (for_in sh) input [])"
  by (simp add: object_def safeParse_with_shape safeParse_createSchema Let_def)


lemma object_loop_fail:
  assumes "get_prop input k = Inr x" and "safeParse s x = Inr (Issues iss)"
  shows "\<forall>(k', s') \<in> set pre. \<exists>x w. get_prop input k' = Inr x \<and> safeParse s' x = Inr (Value w) \<Longrightarrow>
         object_loop (pre @ (k, s) # post) input props
           = Inr (Issues (prependKeyToIssues (KName k) iss))"
proof (induction pre arbitrary: props)
  case Nil
  then show ?case using assms by simp
next
  case (Cons a pre)
  obtain k' s' where a: "a = (k', s')" by (cases a)
  obtain x' w where "get_prop input k' = Inr x'" "safeParse s' x' = Inr (Value w)"
    using Cons.prems a by auto
  moreover have "object_loop (pre @ (k, s) # post) input (set_prop props k' w)
                  = Inr (Issues (prependKeyToIssues (KName k) iss))"
    using Cons.prems by (intro Cons.IH) simp
  ultimately show ?case using a by simp
qed


lemma object_loop_issue_paths:
  "object_loop fs input props = Inr (Issues iss) \<Longrightarrow> x \<in> set iss \<Longrightarrow> path x \<noteq> None"
proof (induction fs arbitrary: props)
  case Nil
  then show ?case by simp
next
  case (Cons a fs)
  obtain k s where a: "a = (k, s)" by (cases a)
  show ?case
    using Cons.prems Cons.IH a
    by (auto split: sum.splits result.splits dest: prependKeyToIssues_path)
qed





subsection \<open>Nested failures\<close>

lemma prepend_under:
  "prependKeyToIssues k
     (map (\<lambda>issue. \<lparr>message = message issue,
                    path = (if ks = [] then path issue
                            else Some (ks @ (case path issue of None \<Rightarrow> [] | Some p \<Rightarrow> p)))\<rparr>) iss)
   = map (\<lambda>issue. \<lparr>message = message issue,
                   path = Some ((k # ks) @ (case path issue of None \<Rightarrow> [] | Some p \<Rightarrow> p))\<rparr>) iss"
  by (auto simp add: prependKeyToIssues_def split: option.splits)

lemma reaches_issues:
  "reaches outer vo ks inner vi \<Longrightarrow> safeParse inner vi = Inr (Issues iss) \<Longrightarrow>
   safeParse outer vo =
     Inr (Issues (map (\<lambda>issue. \<lparr>message = message issue,
                                 path = (if ks = [] then path issue
                                         else Some (ks @ (case path issue of None \<Rightarrow> [] | Some p \<Rightarrow> p)))\<rparr>)
                   iss))"
proof (induction rule: reaches.induct)
  case (here s v)
  then show ?case by (simp add: map_idI)
next
  case (in_array i xs s ks inner vi m)
  let ?iss = "map (\<lambda>issue. \<lparr>message = message issue,
                             path = (if ks = [] then path issue
                                     else Some (ks @ (case path issue of None \<Rightarrow> [] | Some p \<Rightarrow> p)))\<rparr>) iss"
  have "safeParse s (xs ! i) = Inr (Issues ?iss)"
    using in_array.IH in_array.prems by simp
  then have "array_loop s xs (length xs) 0 (replicate (length xs) Undefined)
          = Inr (Issues (prependKeyToIssues (KIndex i) ?iss))"
    using in_array.hyps(1,2)
    by (intro array_loop_fail [where vals = "replicate (length xs) Undefined"]) simp_all
  then show ?case
    by (simp add: safeParse_array prepend_under)
next
  case (in_object input sh pre k s post x ks inner vi m)
  let ?iss = "map (\<lambda>issue. \<lparr>message = message issue,
                             path = (if ks = [] then path issue
                                     else Some (ks @ (case path issue of None \<Rightarrow> [] | Some p \<Rightarrow> p)))\<rparr>) iss"
  have "safeParse s x = Inr (Issues ?iss)"
    using in_object.IH in_object.prems by simp
  then have "object_loop (pre @ (k, s) # post) input []
          = Inr (Issues (prependKeyToIssues (KName k) ?iss))"
    using in_object.hyps(3,4) by (intro object_loop_fail [where x = x]) simp_all
  then show ?case
    using in_object.hyps(1,2) by (simp add: safeParse_object prepend_under)
next
  case (in_maybe v s ks inner vi)
  then show ?case by (simp add: safeParse_maybe)
next
  case (in_defaulted v s ks inner vi d)
  then show ?case by (simp add: safeParse_defaulted)
qed

subsection \<open>Built schemas return\<close>












section \<open>The claims\<close>

subsection \<open>safeParse and parse\<close>




subsection \<open>Paths under nesting\<close>

text \<open>
  Claim C2. When validating with \<open>outer\<close> comes, through enclosing arrays and objects, to
  an inner validator that fails, \<open>outer\<close> returns the inner issues, each with the segments
  of the enclosing combinators in front of its own path (or as its path, when it had
  none), outermost first: the index for an array, the field name for an object. So
  \<^verbatim>\<open>array(object({ age: number() }))\<close> on \<^verbatim>\<open>[{ age: 1 }, { age: "x" }]\<close> gives one issue, with
  the path \<^verbatim>\<open>[1, "age"]\<close>.
\<close>

theorem nested_paths_read_root_to_leaf:
  "(reaches outer vo ks inner vi \<and> safeParse inner vi = Inr (Issues iss) \<longrightarrow>
      safeParse outer vo =
        Inr (Issues (map (\<lambda>issue. \<lparr>message = message issue,
                                    path = (if ks = [] then path issue
                                            else Some (ks @ (case path issue of
                                                               None \<Rightarrow> [] | Some p \<Rightarrow> p)))\<rparr>)
                      iss)))
   \<and> safeParse (array (object [(''age'', number None)] None) None)
        (Arr [Obj ObjectProto [(''age'', Num (Finite 1))],
              Obj ObjectProto [(''age'', Str ''x'')]])
       = Inr (Issues [\<lparr>message = ''Expected number'', path = Some [KIndex 1, KName ''age'']\<rparr>])"
proof -
  have "safeParse (array (object [(''age'', number None)] None) None)
        (Arr [Obj ObjectProto [(''age'', Num (Finite 1))],
              Obj ObjectProto [(''age'', Str ''x'')]])
       = Inr (Issues [\<lparr>message = ''Expected number'', path = Some [KIndex 1, KName ''age'']\<rparr>])"
    by code_simp
  then show ?thesis
    using reaches_issues [of outer vo ks inner vi iss] by simp
qed

text \<open>
  The theorem at \<^verbatim>\<open>object({ items: array(string()) })\<close> and the input
  \<^verbatim>\<open>{ items: ["a", 5] }\<close>: the path is \<^verbatim>\<open>["items", 1]\<close>.
\<close>

theorem nested_paths_read_root_to_leaf_witness:
  "reaches (object [(''items'', array (string None) None)] None)
     (Obj ObjectProto [(''items'', Arr [Str ''a'', Num (Finite 5)])])
     [KName ''items'', KIndex 1] (string None) (Num (Finite 5))
   \<and> safeParse (string None) (Num (Finite 5))
       = Inr (Issues [\<lparr>message = ''Expected string'', path = None\<rparr>])
   \<and> safeParse (object [(''items'', array (string None) None)] None)
        (Obj ObjectProto [(''items'', Arr [Str ''a'', Num (Finite 5)])])
       = Inr (Issues [\<lparr>message = ''Expected string'',
                       path = Some [KName ''items'', KIndex 1]\<rparr>])"
proof -
  have leaf: "safeParse (string None) (Num (Finite 5))
       = Inr (Issues [\<lparr>message = ''Expected string'', path = None\<rparr>])"
    by (simp add: safeParse_string default_arg_def)
  have "reaches (string None) ([Str ''a'', Num (Finite 5)] ! 1) [] (string None) (Num (Finite 5))"
    by (simp add: reaches.here)
  then have arr: "reaches (array (string None) None) (Arr [Str ''a'', Num (Finite 5)])
      [KIndex 1] (string None) (Num (Finite 5))"
    by (intro reaches.in_array) (simp_all add: safeParse_string)
  have fs: "for_in [(''items'', array (string None) None)]
      = [] @ (''items'', array (string None) None) # []"
    by (simp add: for_in_def is_array_index_def is_digit_def)
  have r: "reaches (object [(''items'', array (string None) None)] None)
     (Obj ObjectProto [(''items'', Arr [Str ''a'', Num (Finite 5)])])
     [KName ''items'', KIndex 1] (string None) (Num (Finite 5))"
    by (rule reaches.in_object [OF _ fs _ _ arr])
       (simp_all add: isObject_Obj lookup_prop_def)
  show ?thesis
    using nested_paths_read_root_to_leaf
            [of "object [(''items'', array (string None) None)] None"
                "Obj ObjectProto [(''items'', Arr [Str ''a'', Num (Finite 5)])]"
                "[KName ''items'', KIndex 1]" "string None" "Num (Finite 5)"
                "[\<lparr>message = ''Expected string'', path = None\<rparr>]"]
          r leaf
    by simp
qed

subsection \<open>array\<close>

text \<open>
  Claim C3. \<^verbatim>\<open>array(s)\<close> gives one issue with no path (the message given, or
  \<^verbatim>\<open>"Expected array"\<close>) when the input is not an array. On an array it validates the elements
  in index order: when \<open>i\<close> is the first index whose element the child rejects, the result
  is the child's issues there, each with \<open>i\<close> put in front of its path; nothing is assumed
  about the elements after \<open>i\<close> or about the child on them, so the child is not consulted
  there (it may reject them or throw on them). When the child validates every element, the
  result is the array, built from \<^verbatim>\<open>new Array(len)\<close>, of the child's values, of the same
  length and in the same order. \<^verbatim>\<open>array(number())\<close> on \<^verbatim>\<open>[1, "x", 3]\<close> gives the one issue
  \<^verbatim>\<open>{ message: "Expected number", path: [1] }\<close>, and so does any child that agrees with
  \<^verbatim>\<open>number()\<close> on \<^verbatim>\<open>1\<close> and \<^verbatim>\<open>"x"\<close>, whatever it does on \<^verbatim>\<open>3\<close>.
\<close>

theorem array_validates_in_order_and_stops:
  "(\<not> isArray input \<longrightarrow>
      safeParse (array s m) input =
        Inr (Issues [\<lparr>message = (case m of None \<Rightarrow> ''Expected array'' | Some c \<Rightarrow> c),
                       path = None\<rparr>]))
   \<and> (i < length xs \<and> (\<forall>j<i. \<exists>w. safeParse s (xs ! j) = Inr (Value w))
        \<and> safeParse s (xs ! i) = Inr (Issues iss) \<longrightarrow>
      safeParse (array s m) (Arr xs) =
        Inr (Issues (map (\<lambda>issue. \<lparr>message = message issue,
                                    path = Some (KIndex i #
                                      (case path issue of None \<Rightarrow> [] | Some p \<Rightarrow> p))\<rparr>) iss)))
   \<and> (length ws = length xs \<and> (\<forall>j<length xs. safeParse s (xs ! j) = Inr (Value (ws ! j))) \<longrightarrow>
      safeParse (array s m) (Arr xs) = Inr (Value (Arr ws)))
   \<and> safeParse (array (number None) None) (Arr [Num (Finite 1), Str ''x'', Num (Finite 3)]) =
       Inr (Issues [\<lparr>message = ''Expected number'', path = Some [KIndex 1]\<rparr>])
   \<and> (safeParse s' (Num (Finite 1)) = Inr (Value (Num (Finite 1)))
        \<and> safeParse s' (Str ''x'') = Inr (Issues [\<lparr>message = ''Expected number'', path = None\<rparr>]) \<longrightarrow>
      safeParse (array s' None) (Arr [Num (Finite 1), Str ''x'', Num (Finite 3)]) =
        Inr (Issues [\<lparr>message = ''Expected number'', path = Some [KIndex 1]\<rparr>]))"
proof -
  have not_array: "safeParse (array s m) input =
        Inr (Issues [\<lparr>message = (case m of None \<Rightarrow> ''Expected array'' | Some c \<Rightarrow> c),
                       path = None\<rparr>])" if "\<not> isArray input"
    using that by (simp add: safeParse_array default_arg_def)
  have first_failure: "safeParse (array c m') (Arr ys) =
        Inr (Issues (prependKeyToIssues (KIndex k) is'))"
    if "k < length ys" "\<forall>j<k. \<exists>w. safeParse c (ys ! j) = Inr (Value w)"
      "safeParse c (ys ! k) = Inr (Issues is')" for c m' ys k is'
  proof -
    have "array_loop c ys (length ys) 0 (replicate (length ys) Undefined)
          = Inr (Issues (prependKeyToIssues (KIndex k) is'))"
      using that by (intro array_loop_fail [where vals = "replicate (length ys) Undefined"]) simp_all
    then show ?thesis by (simp add: safeParse_array)
  qed
  have all_valid: "safeParse (array s m) (Arr xs) = Inr (Value (Arr ws))"
    if "length ws = length xs" "\<forall>j<length xs. safeParse s (xs ! j) = Inr (Value (ws ! j))"
  proof -
    have "array_loop s xs (length xs) 0 (replicate (length xs) Undefined) = Inr (Value (Arr ws))"
      using that by (intro array_loop_success) simp_all
    then show ?thesis by (simp add: safeParse_array)
  qed
  have example: "safeParse (array c None) (Arr [Num (Finite 1), Str ''x'', Num (Finite 3)]) =
        Inr (Issues [\<lparr>message = ''Expected number'', path = Some [KIndex 1]\<rparr>])"
    if "safeParse c (Num (Finite 1)) = Inr (Value (Num (Finite 1)))"
      "safeParse c (Str ''x'') = Inr (Issues [\<lparr>message = ''Expected number'', path = None\<rparr>])"
    for c
    using first_failure [of 1 "[Num (Finite 1), Str ''x'', Num (Finite 3)]" c
        "[\<lparr>message = ''Expected number'', path = None\<rparr>]" None] that
    by (simp add: prependKeyToIssues_def)
  have number_example:
    "safeParse (array (number None) None) (Arr [Num (Finite 1), Str ''x'', Num (Finite 3)]) =
        Inr (Issues [\<lparr>message = ''Expected number'', path = Some [KIndex 1]\<rparr>])"
    by (rule example) (simp_all add: safeParse_number default_arg_def)
  show ?thesis
    using not_array first_failure [of i xs s iss m] all_valid example [of s'] number_example
    by (simp add: prependKeyToIssues_map)
qed

text \<open>
  The theorem at \<^verbatim>\<open>array(string(), "list")\<close>: on \<^verbatim>\<open>true\<close>, on \<^verbatim>\<open>["a", 7, true]\<close> and on
  \<^verbatim>\<open>["a", "b"]\<close>; and at a child that is \<^verbatim>\<open>number()\<close> except that it throws on \<^verbatim>\<open>3\<close>: on
  \<^verbatim>\<open>[1, "x", 3]\<close> the array schema returns the issue at index 1 and does not throw.
\<close>

theorem array_validates_in_order_and_stops_witness:
  "\<not> isArray (Bool True)
   \<and> safeParse (array (string None) (Some ''list'')) (Bool True) =
       Inr (Issues [\<lparr>message = ''list'', path = None\<rparr>])
   \<and> safeParse (array (string None) (Some ''list'')) (Arr [Str ''a'', Num (Finite 7), Bool True]) =
       Inr (Issues [\<lparr>message = ''Expected string'', path = Some [KIndex 1]\<rparr>])
   \<and> safeParse (array (string None) (Some ''list'')) (Arr [Str ''a'', Str ''b'']) =
       Inr (Value (Arr [Str ''a'', Str ''b'']))
   \<and> safeParse (createSchema (\<lambda>v. if v = Num (Finite 3) then Inl TypeError
                                  else safeParse (number None) v)) (Num (Finite 3))
       = Inl TypeError
   \<and> safeParse (array (createSchema (\<lambda>v. if v = Num (Finite 3) then Inl TypeError
                                         else safeParse (number None) v)) None)
        (Arr [Num (Finite 1), Str ''x'', Num (Finite 3)]) =
       Inr (Issues [\<lparr>message = ''Expected number'', path = Some [KIndex 1]\<rparr>])"
proof -
  let ?thrower = "createSchema (\<lambda>v. if v = Num (Finite 3) then Inl TypeError
                                else safeParse (number None) v)"
  have a: "\<forall>j<1. \<exists>w. safeParse (string None) ([Str ''a'', Num (Finite 7), Bool True] ! j)
             = Inr (Value w)"
    by (simp add: safeParse_string)
  have b: "safeParse (string None) ([Str ''a'', Num (Finite 7), Bool True] ! 1)
             = Inr (Issues [\<lparr>message = ''Expected string'', path = None\<rparr>])"
    by (simp add: safeParse_string default_arg_def)
  have c: "\<forall>j<length [Str ''a'', Str ''b''].
             safeParse (string None) ([Str ''a'', Str ''b''] ! j) = Inr (Value ([Str ''a'', Str ''b''] ! j))"
    by (simp add: safeParse_string less_Suc_eq nth_Cons')
  have t1: "safeParse ?thrower (Num (Finite 1)) = Inr (Value (Num (Finite 1)))"
    by (simp add: safeParse_createSchema safeParse_number)
  have t2: "safeParse ?thrower (Str ''x'')
             = Inr (Issues [\<lparr>message = ''Expected number'', path = None\<rparr>])"
    by (simp add: safeParse_createSchema safeParse_number default_arg_def)
  have t3: "safeParse ?thrower (Num (Finite 3)) = Inl TypeError"
    by (simp add: safeParse_createSchema)
  show ?thesis
    using array_validates_in_order_and_stops
            [of "Bool True" "string None" "Some ''list''" 1
                "[Str ''a'', Num (Finite 7), Bool True]"
                "[\<lparr>message = ''Expected string'', path = None\<rparr>]"]
          array_validates_in_order_and_stops
            [of "Bool True" "string None" "Some ''list''" 0
                "[Str ''a'', Str ''b'']" "[]" "[Str ''a'', Str ''b'']" ?thrower]
          a b c t1 t2 t3
    by simp
qed

subsection \<open>object\<close>




text \<open>
  Claim C5. \<^verbatim>\<open>object(shape)\<close> gives the one issue with no path and the constructor's
  message exactly when the input is \<^verbatim>\<open>null\<close>, \<^verbatim>\<open>undefined\<close>, or a value whose prototype is
  neither absent nor \<^verbatim>\<open>Object.prototype\<close>: so on an array, an instance of a class, a string,
  a number and a boolean. An object with no prototype or with \<^verbatim>\<open>Object.prototype\<close> goes on
  to the validation of the fields.
\<close>

theorem object_rejects_what_is_not_plain:
  "(safeParse (object sh m) input =
      Inr (Issues [\<lparr>message = (case m of None \<Rightarrow> ''Expected object'' | Some c \<Rightarrow> c),
                     path = None\<rparr>]))
   = (input = Null \<or> input = Undefined
      \<or> (\<exists>p. getPrototypeOf input = Inr p \<and> p \<noteq> NullProto \<and> p \<noteq> ObjectProto))
   \<and> safeParse (object sh m) (Arr xs) = Inr (Issues [\<lparr>message = default_arg m ''Expected object'', path = None\<rparr>])
   \<and> safeParse (object sh m) (Obj (ClassProto c) props) = Inr (Issues [\<lparr>message = default_arg m ''Expected object'', path = None\<rparr>])
   \<and> safeParse (object sh m) (Str t) = Inr (Issues [\<lparr>message = default_arg m ''Expected object'', path = None\<rparr>])
   \<and> safeParse (object sh m) (Num n) = Inr (Issues [\<lparr>message = default_arg m ''Expected object'', path = None\<rparr>])
   \<and> safeParse (object sh m) (Bool b) = Inr (Issues [\<lparr>message = default_arg m ''Expected object'', path = None\<rparr>])
   \<and> safeParse (object sh m) (Obj NullProto props) = object_loop (for_in sh) (Obj NullProto props) []
   \<and> safeParse (object sh m) (Obj ObjectProto props) = object_loop (for_in sh) (Obj ObjectProto props) []"
proof -
  let ?one = "Inr (Issues [\<lparr>message = default_arg m ''Expected object'', path = None\<rparr>])"
  have plain: "safeParse (object sh m) v \<noteq> ?one" if "isObject v = Inr True" for v
  proof
    assume "safeParse (object sh m) v = ?one"
    then have "object_loop (for_in sh) v [] = ?one"
      using that by (simp add: safeParse_object)
    then have "path \<lparr>message = default_arg m ''Expected object'', path = None\<rparr> \<noteq> None"
      by (rule object_loop_issue_paths) simp
    then show False by simp
  qed
  have other: "safeParse (object sh m) v = ?one" if "isObject v = Inr False" for v
    using that by (simp add: safeParse_object)
  have "(safeParse (object sh m) input = ?one) = (isObject input = Inr False)"
    using isObject_cases [of input]
  proof (elim disjE exE)
    assume t: "isObject input = Inr True"
    then show ?thesis using plain [OF t] by simp
  next
    assume f: "isObject input = Inr False"
    then show ?thesis using other [OF f] by simp
  next
    fix e
    assume "isObject input = Inl e"
    then show ?thesis by (simp add: safeParse_object)
  qed
  then have first: "(safeParse (object sh m) input =
      Inr (Issues [\<lparr>message = (case m of None \<Rightarrow> ''Expected object'' | Some c \<Rightarrow> c),
                     path = None\<rparr>]))
   = (input = Null \<or> input = Undefined
      \<or> (\<exists>p. getPrototypeOf input = Inr p \<and> p \<noteq> NullProto \<and> p \<noteq> ObjectProto))"
    unfolding isObject_False by (simp add: default_arg_def)
  have rest: "safeParse (object sh m) (Arr xs) = ?one"
    "safeParse (object sh m) (Obj (ClassProto c) props) = ?one"
    "safeParse (object sh m) (Str t) = ?one"
    "safeParse (object sh m) (Num n) = ?one"
    "safeParse (object sh m) (Bool b) = ?one"
    "safeParse (object sh m) (Obj NullProto props) = object_loop (for_in sh) (Obj NullProto props) []"
    "safeParse (object sh m) (Obj ObjectProto props) = object_loop (for_in sh) (Obj ObjectProto props) []"
    by (simp_all add: safeParse_object isObject_def)
  show ?thesis
    using first rest by simp
qed

subsection \<open>literal\<close>

text \<open>
  Claim C6. \<^verbatim>\<open>literal(value, message)\<close>, for a string, number, boolean or \<^verbatim>\<open>null\<close> value,
  succeeds with the input exactly when the input is strictly equal to the value, and
  otherwise gives one issue with no path and the message; \<^verbatim>\<open>literal(null, m)\<close> succeeds
  on \<^verbatim>\<open>null\<close> only, so it fails on \<^verbatim>\<open>undefined\<close>, \<^verbatim>\<open>0\<close>, the empty string and \<^verbatim>\<open>false\<close>.
\<close>

theorem literal_strict_equality:
  "safeParse (literal l m) input =
     (if strict_equals input l then Inr (Value input)
      else Inr (Issues [\<lparr>message = m, path = None\<rparr>]))
   \<and> (safeParse (literal LNull m) input = Inr (Value input)) = (input = Null)
   \<and> safeParse (literal LNull m) Null = Inr (Value Null)
   \<and> safeParse (literal LNull m) Undefined = Inr (Issues [\<lparr>message = m, path = None\<rparr>])
   \<and> safeParse (literal LNull m) (Num (Finite 0)) = Inr (Issues [\<lparr>message = m, path = None\<rparr>])
   \<and> safeParse (literal LNull m) (Str '''') = Inr (Issues [\<lparr>message = m, path = None\<rparr>])
   \<and> safeParse (literal LNull m) (Bool False) = Inr (Issues [\<lparr>message = m, path = None\<rparr>])"
proof -
  have "strict_equals input LNull = (input = Null)"
    by (cases input) simp_all
  then show ?thesis
    by (simp add: safeParse_literal)
qed

subsection \<open>maybe and defaulted\<close>

text \<open>
  Claim C7. For every child schema \<open>s\<close>: \<^verbatim>\<open>maybe(s)\<close> succeeds with \<^verbatim>\<open>undefined\<close> on \<^verbatim>\<open>null\<close>
  and on \<^verbatim>\<open>undefined\<close>, \<^verbatim>\<open>defaulted(s, d)\<close> succeeds with \<open>d\<close> on both, and on every other
  input both give what \<open>s\<close> gives on that input (its value, its issues with their paths,
  or what it throws), unchanged.
\<close>

theorem maybe_defaulted_absent_or_delegate:
  "safeParse (maybe s) Null = Inr (Value Undefined)
   \<and> safeParse (maybe s) Undefined = Inr (Value Undefined)
   \<and> safeParse (defaulted s d) Null = Inr (Value d)
   \<and> safeParse (defaulted s d) Undefined = Inr (Value d)
   \<and> (v \<noteq> Null \<and> v \<noteq> Undefined \<longrightarrow>
        safeParse (maybe s) v = safeParse s v \<and> safeParse (defaulted s d) v = safeParse s v)"
  by (simp add: safeParse_maybe safeParse_defaulted)

text \<open>
  The theorem at \<^verbatim>\<open>number()\<close>, the default 42 and the input \<^verbatim>\<open>"x"\<close>.
\<close>

theorem maybe_defaulted_absent_or_delegate_witness:
  "Str ''x'' \<noteq> Null \<and> Str ''x'' \<noteq> Undefined
   \<and> safeParse (maybe (number None)) Null = Inr (Value Undefined)
   \<and> safeParse (defaulted (number None) (Num (Finite 42))) Undefined = Inr (Value (Num (Finite 42)))
   \<and> safeParse (maybe (number None)) (Str ''x'')
       = Inr (Issues [\<lparr>message = ''Expected number'', path = None\<rparr>])
   \<and> safeParse (defaulted (number None) (Num (Finite 42))) (Str ''x'')
       = Inr (Issues [\<lparr>message = ''Expected number'', path = None\<rparr>])"
  using maybe_defaulted_absent_or_delegate
          [of "number None" "Num (Finite 42)" "Str ''x''"]
  by (simp add: safeParse_number default_arg_def)

subsection \<open>Primitive schemas\<close>

text \<open>
  Claim C8. \<^verbatim>\<open>string()\<close>, \<^verbatim>\<open>number()\<close> and \<^verbatim>\<open>boolean()\<close> succeed with the input itself as
  the value exactly when \<^verbatim>\<open>typeof\<close> of the input is the corresponding kind, where
  \<^verbatim>\<open>number()\<close> also rejects \<^verbatim>\<open>NaN\<close> and the two infinities; on every other input the result
  is one issue with no path whose message is the one given to the constructor, or the
  default when none was given.
\<close>

theorem primitives_accept_exactly_their_kind:
  "safeParse (string m) v =
     (if typeof v = ''string'' then Inr (Value v)
      else Inr (Issues [\<lparr>message = (case m of None \<Rightarrow> ''Expected string'' | Some c \<Rightarrow> c),
                         path = None\<rparr>]))
   \<and> safeParse (number m) v =
     (if typeof v = ''number'' \<and> v \<noteq> Num NaN \<and> v \<noteq> Num PosInfinity \<and> v \<noteq> Num NegInfinity
      then Inr (Value v)
      else Inr (Issues [\<lparr>message = (case m of None \<Rightarrow> ''Expected number'' | Some c \<Rightarrow> c),
                         path = None\<rparr>]))
   \<and> safeParse (boolean m) v =
     (if typeof v = ''boolean'' then Inr (Value v)
      else Inr (Issues [\<lparr>message = (case m of None \<Rightarrow> ''Expected boolean'' | Some c \<Rightarrow> c),
                         path = None\<rparr>]))"
proof -
  have fin: "(typeof v = ''number'' \<and> isFinite v) =
      (typeof v = ''number'' \<and> v \<noteq> Num NaN \<and> v \<noteq> Num PosInfinity \<and> v \<noteq> Num NegInfinity)"
  proof (cases v)
    case (Num n)
    then show ?thesis by (cases n) simp_all
  qed simp_all
  show ?thesis
    unfolding safeParse_string safeParse_number safeParse_boolean fin default_arg_def
    by simp
qed

subsection \<open>The interop property\<close>

text \<open>
  Claim C9. For a schema returned by any constructor of the API, with any arguments, the
  \<^verbatim>\<open>validate\<close> function of the \<^verbatim>\<open>"~standard"\<close> property gives on every input what
  \<^verbatim>\<open>safeParse\<close> gives, \<^verbatim>\<open>vendor\<close> is \<^verbatim>\<open>"razr"\<close> and \<^verbatim>\<open>version\<close> is 1.
\<close>

theorem standard_validate_is_safeParse:
  assumes "s = string m1 \<or> s = number m2 \<or> s = boolean m3 \<or> s = literal l m4
           \<or> s = array child m5 \<or> s = object sh m6 \<or> s = maybe child
           \<or> s = defaulted child d"
  shows "validate (standard s) input = safeParse s input
         \<and> vendor (standard s) = ''razr'' \<and> version (standard s) = 1"
proof -
  have "\<exists>f. s = createSchema f \<or> s = with_shape sh (createSchema f)"
    using assms
    unfolding string_def number_def boolean_def literal_def array_def object_def
      maybe_def defaulted_def Let_def
    by blast
  then show ?thesis
    by (auto simp add: standard_createSchema safeParse_createSchema
        standard_with_shape safeParse_with_shape)
qed

text \<open>
  The theorem at \<^verbatim>\<open>array(string())\<close> and the input \<^verbatim>\<open>["a"]\<close>.
\<close>

theorem standard_validate_is_safeParse_witness:
  "validate (standard (array (string None) None)) (Arr [Str ''a''])
     = safeParse (array (string None) None) (Arr [Str ''a''])
   \<and> vendor (standard (array (string None) None)) = ''razr''
   \<and> version (standard (array (string None) None)) = 1"
  using standard_validate_is_safeParse
          [of "array (string None) None" _ _ _ _ _ "string None" None _ _ _
              "Arr [Str ''a'']"]
  by simp

subsection \<open>The default is not validated\<close>

text \<open>
  Claim C10. On \<^verbatim>\<open>null\<close> and \<^verbatim>\<open>undefined\<close>, \<^verbatim>\<open>defaulted(s, d)\<close> succeeds with \<open>d\<close> whatever the
  child \<open>s\<close> is: the result does not depend on \<open>s\<close>, so \<open>s\<close> is not consulted, also when
  \<open>s\<close> throws on every input. The default is not validated: \<^verbatim>\<open>number()\<close> rejects \<^verbatim>\<open>"x"\<close>,
  and \<^verbatim>\<open>defaulted(number(), "x")\<close> returns \<^verbatim>\<open>"x"\<close> as a success value.
\<close>

theorem defaulted_does_not_validate_default:
  "safeParse (defaulted s d) Null = Inr (Value d)
   \<and> safeParse (defaulted s d) Undefined = Inr (Value d)
   \<and> safeParse (defaulted (createSchema (\<lambda>v. Inl TypeError)) d) Null = Inr (Value d)
   \<and> safeParse (defaulted (createSchema (\<lambda>v. Inl TypeError)) d) Undefined = Inr (Value d)
   \<and> safeParse (number None) (Str ''x'')
       = Inr (Issues [\<lparr>message = ''Expected number'', path = None\<rparr>])
   \<and> safeParse (defaulted (number None) (Str ''x'')) Null = Inr (Value (Str ''x''))
   \<and> safeParse (defaulted (number None) (Str ''x'')) Undefined = Inr (Value (Str ''x''))"
  by (simp add: safeParse_defaulted safeParse_number default_arg_def)

end
